theory Spec2Isabelle
  imports Complex_Main
begin

section \<open>Data model of Bot.py\<close>

text \<open>
  Times are the readings of \<open>time.time()\<close> and are compared with \<open>>=\<close> only; they are
  modelled as \<open>real\<close>. Indicator values are Python floats that may be NaN (the indicator
  series starts with NaN entries), so they get a type of their own whose comparisons are
  false on NaN, as Python's are.
\<close>

datatype pyfloat = NaN | Fin real

fun fgt :: "pyfloat \<Rightarrow> real \<Rightarrow> bool" where
  "fgt (Fin x) y = (x > y)"
| "fgt NaN y = False"

fun fle :: "pyfloat \<Rightarrow> real \<Rightarrow> bool" where
  "fle (Fin x) y = (x \<le> y)"
| "fle NaN y = False"

fun flt :: "pyfloat \<Rightarrow> real \<Rightarrow> bool" where
  "flt (Fin x) y = (x < y)"
| "flt NaN y = False"

fun fge :: "pyfloat \<Rightarrow> real \<Rightarrow> bool" where
  "fge (Fin x) y = (x \<ge> y)"
| "fge NaN y = False"

text \<open>
  The exception classes the code tests for, and the other ones its own statements raise. A
  class stands for itself and its subclasses, as \<open>isinstance\<close> reads it; \<open>ExchangeError\<close>
  stands for every other error of the provider library.
\<close>

datatype exc_class =
    NetworkError | ExchangeNotAvailable | DDoSProtection | RateLimitExceeded | RequestTimeout
  | BadSymbol | ExchangeError | ValueError | KeyError | IndexError

datatype exc = Exc (exc_class: exc_class) (exc_msg: string)

text \<open>A value stored in a market dictionary of the provider's catalog.\<close>

datatype pyval = PyNone | PyBool bool | PyStr string

text \<open>A market dictionary: every key may be absent (\<open>None\<close> here), as \<open>m.get\<close> allows.\<close>

record market =
  m_active :: "pyval option"
  m_base :: "pyval option"
  m_quote :: "pyval option"
  m_swap :: "pyval option"
  m_type :: "pyval option"
  m_linear :: "pyval option"
  m_symbol :: "string option"

text \<open>What \<open>ex.load_markets()\<close> leaves in \<open>ex.markets\<close> (in provider order) and \<open>ex.symbols\<close>.\<close>

record catalog =
  markets :: "market list"
  symbols :: "string list"

text \<open>A candle \<open>[t, o, h, l, c, v]\<close>.\<close>

record candle =
  c_t :: real
  c_o :: real
  c_h :: real
  c_l :: real
  c_c :: real
  c_v :: real

text \<open>Messages handed to \<open>send\<close>, by their variable parts.\<close>

datatype message =
    Failover string string string string
  | CrossBelow string string pyfloat string
  | CrossAbove string string pyfloat string

text \<open>Calls made to a provider, recorded in the order they are made.\<close>

datatype call =
    LoadMarkets string
  | FetchOhlcv string string string int

fun call_exchange :: "call \<Rightarrow> string" where
  "call_exchange (LoadMarkets ex) = ex"
| "call_exchange (FetchOhlcv ex msym tf lmt) = ex"

text \<open>The environment variables the modelled functions read.\<close>

record config =
  RSI_LOW :: real
  RSI_HIGH :: real
  SYMBOL :: string
  COOLDOWN_SECONDS :: int

text \<open>
  The module's global dictionaries, together with the messages sent and the provider calls
  made so far.
\<close>

record state =
  pinned_exchange :: "(string \<times> string) \<rightharpoonup> string"
  cooldown_until :: "string \<rightharpoonup> real"
  last_state :: "string \<rightharpoonup> pyfloat"
  perp_symbol_cache :: "(string \<times> string) \<rightharpoonup> string"
  sent :: "message list"
  calls :: "call list"

text \<open>
  The outside world during one call of \<open>fetch_ohlcv_pinned\<close>: what each provider answers,
  the clock reading taken by \<open>exchange_order_for\<close>, the clock reading taken in the
  handler of a failed attempt on a source, and the indicator library's series for a list
  of closes.
\<close>

record env =
  load_markets :: "string \<Rightarrow> exc + catalog"
  fetch_ohlcv :: "string \<Rightarrow> string \<Rightarrow> string \<Rightarrow> int \<Rightarrow> exc + candle list"
  time_start :: real
  time_failure :: "string \<Rightarrow> real"
  rsi_series :: "real list \<Rightarrow> pyfloat list"

definition EXCHANGES :: "string list" where
  "EXCHANGES = [''bybit'', ''kucoin'', ''okx'']"

definition initial_state :: state where
  "initial_state =
     \<lparr> pinned_exchange = Map.empty,
       cooldown_until = map_of (map (\<lambda>ex. (ex, 0)) EXCHANGES),
       last_state = Map.empty,
       perp_symbol_cache = Map.empty,
       sent = [],
       calls = [] \<rparr>"

section \<open>Strings\<close>

text \<open>\<open>str.lower\<close> on the ASCII letters; other bytes are left as they are.\<close>

definition lower_char :: "char \<Rightarrow> char" where
  "lower_char c =
     (case map_of (zip ''ABCDEFGHIJKLMNOPQRSTUVWXYZ'' ''abcdefghijklmnopqrstuvwxyz'') c of
        Some d \<Rightarrow> d
      | None \<Rightarrow> c)"

definition lower :: "string \<Rightarrow> string" where
  "lower s = map lower_char s"

fun starts_with :: "string \<Rightarrow> string \<Rightarrow> bool" where
  "starts_with s [] = True"
| "starts_with [] (c # cs) = False"
| "starts_with (x # xs) (c # cs) = (x = c \<and> starts_with xs cs)"

text \<open>\<open>sub in s\<close>.\<close>

fun contains :: "string \<Rightarrow> string \<Rightarrow> bool" where
  "contains [] sub = (sub = [])"
| "contains (x # xs) sub = (starts_with (x # xs) sub \<or> contains xs sub)"

text \<open>\<open>s.split(sep)\<close> for a separator of one character: always at least one part.\<close>

fun split_on :: "char \<Rightarrow> string \<Rightarrow> string list" where
  "split_on sep [] = [[]]"
| "split_on sep (c # cs) =
     (if c = sep then [] # split_on sep cs
      else (case split_on sep cs of
              [] \<Rightarrow> [[c]]
            | p # ps \<Rightarrow> (c # p) # ps))"

section \<open>is_recoverable\<close>

fun recoverable_type :: "exc_class \<Rightarrow> bool" where
  "recoverable_type NetworkError = True"
| "recoverable_type ExchangeNotAvailable = True"
| "recoverable_type DDoSProtection = True"
| "recoverable_type RateLimitExceeded = True"
| "recoverable_type RequestTimeout = True"
| "recoverable_type BadSymbol = False"
| "recoverable_type ExchangeError = False"
| "recoverable_type ValueError = False"
| "recoverable_type KeyError = False"
| "recoverable_type IndexError = False"

definition is_recoverable :: "exc \<Rightarrow> bool" where
  "is_recoverable e =
     (if recoverable_type (exc_class e) then True
      else (let msg = lower (exc_msg e) in
            if contains msg ''restricted'' \<or> contains msg ''forbidden'' \<or> contains msg ''403''
            then True
            else False))"

section \<open>exchange_order_for\<close>

text \<open>The loop \<open>for ex in EXCHANGES: if ex not in order: order.append(ex)\<close>.\<close>

fun append_missing :: "string list \<Rightarrow> string list \<Rightarrow> string list" where
  "append_missing order [] = order"
| "append_missing order (ex # exs) =
     (if ex \<notin> set order then append_missing (order @ [ex]) exs
      else append_missing order exs)"

text \<open>\<open>cooldown_until.get(ex, 0)\<close>.\<close>

definition cooldown_get :: "state \<Rightarrow> string \<Rightarrow> real" where
  "cooldown_get s ex = (case cooldown_until s ex of None \<Rightarrow> 0 | Some t \<Rightarrow> t)"

text \<open>The clock reading \<open>now = time.time()\<close> is an argument.\<close>

definition exchange_order_for :: "state \<Rightarrow> string \<Rightarrow> string \<Rightarrow> real \<Rightarrow> string list" where
  "exchange_order_for s symbol tf now =
     (let pin = pinned_exchange s (symbol, tf);
          order0 = (case pin of
                      None \<Rightarrow> []
                    | Some p \<Rightarrow> if p \<in> set EXCHANGES then [p] else []);
          order1 = append_missing order0 EXCHANGES
      in filter (\<lambda>ex. now \<ge> cooldown_get s ex) order1)"

section \<open>find_perp_market_symbol\<close>

text \<open>\<open>m.get(k)\<close> and \<open>m.get(k, d)\<close> on a key that may be absent, and Python's truth test.\<close>

definition dict_get :: "pyval option \<Rightarrow> pyval" where
  "dict_get v = (case v of None \<Rightarrow> PyNone | Some x \<Rightarrow> x)"

definition dict_get_default :: "pyval option \<Rightarrow> pyval \<Rightarrow> pyval" where
  "dict_get_default v d = (case v of None \<Rightarrow> d | Some x \<Rightarrow> x)"

fun truthy :: "pyval \<Rightarrow> bool" where
  "truthy PyNone = False"
| "truthy (PyBool b) = b"
| "truthy (PyStr str) = (str \<noteq> [])"

text \<open>The loop over \<open>ex.markets.values()\<close> that fills \<open>candidates\<close>.\<close>

fun collect_candidates :: "string \<Rightarrow> string \<Rightarrow> market list \<Rightarrow> market list" where
  "collect_candidates base quote [] = []"
| "collect_candidates base quote (m # ms) =
     (if \<not> truthy (dict_get_default (m_active m) (PyBool True))
        then collect_candidates base quote ms
      else if dict_get (m_base m) \<noteq> PyStr base \<or> dict_get (m_quote m) \<noteq> PyStr quote
        then collect_candidates base quote ms
      else if dict_get (m_swap m) = PyBool True \<or> dict_get (m_type m) = PyStr ''swap''
        then m # collect_candidates base quote ms
      else collect_candidates base quote ms)"

definition is_linear :: "market \<Rightarrow> bool" where
  "is_linear m = (dict_get (m_linear m) = PyBool True)"

text \<open>The message of the \<open>BadSymbol\<close> the function raises; the a-tilde is two bytes of UTF-8.\<close>

definition not_found_msg :: "string \<Rightarrow> string \<Rightarrow> string" where
  "not_found_msg base_symbol ex_id =
     ''Perp '' @ base_symbol @ '' n'' @ [char_of (195::nat), char_of (163::nat)]
       @ ''o encontrado em '' @ ex_id"

text \<open>\<open>str(KeyError('symbol'))\<close> is the key's repr, with its quotes.\<close>

definition key_error_msg :: string where
  "key_error_msg = [char_of (39::nat)] @ ''symbol'' @ [char_of (39::nat)]"

definition unpack_error_msg :: "nat \<Rightarrow> string" where
  "unpack_error_msg n =
     (if n < 2 then ''not enough values to unpack (expected 2, got 1)''
      else ''too many values to unpack (expected 2)'')"

text \<open>
  The exchange object is identified with its name: \<open>ex.id\<close> of the client built by
  \<open>build_exchange name\<close> is \<open>name\<close>. The result is the returned symbol or the raised
  exception, with the state left behind.
\<close>

definition find_perp_market_symbol ::
    "env \<Rightarrow> state \<Rightarrow> string \<Rightarrow> string \<Rightarrow> (exc + string) \<times> state" where
  "find_perp_market_symbol en s ex base_symbol =
     (case perp_symbol_cache s (ex, base_symbol) of
        Some cached \<Rightarrow> (Inr cached, s)
      | None \<Rightarrow>
          (let s1 = s\<lparr>calls := calls s @ [LoadMarkets ex]\<rparr> in
           case load_markets en ex of
             Inl e \<Rightarrow> (Inl e, s1)
           | Inr cat \<Rightarrow>
               (case split_on CHR ''/'' base_symbol of
                  [base, quote] \<Rightarrow>
                    (let candidates = collect_candidates base quote (markets cat) in
                     if candidates = [] then
                       (if base_symbol \<in> set (symbols cat)
                        then (Inr base_symbol,
                              s1\<lparr>perp_symbol_cache :=
                                    (perp_symbol_cache s1)((ex, base_symbol) \<mapsto> base_symbol)\<rparr>)
                        else (Inl (Exc BadSymbol (not_found_msg base_symbol ex)), s1))
                     else
                       (let linear = filter is_linear candidates;
                            chosen_market = (if linear \<noteq> [] then hd linear else hd candidates)
                        in case m_symbol chosen_market of
                             None \<Rightarrow> (Inl (Exc KeyError key_error_msg), s1)
                           | Some chosen \<Rightarrow>
                               (Inr chosen,
                                s1\<lparr>perp_symbol_cache :=
                                      (perp_symbol_cache s1)((ex, base_symbol) \<mapsto> chosen)\<rparr>)))
                | parts \<Rightarrow> (Inl (Exc ValueError (unpack_error_msg (length parts))), s1))))"

section \<open>fetch_ohlcv_pinned\<close>

text \<open>
  The two provider calls at the head of the \<open>try\<close> block: resolve the market, then fetch
  the candles.
\<close>

definition attempt ::
    "env \<Rightarrow> state \<Rightarrow> string \<Rightarrow> string \<Rightarrow> string \<Rightarrow> int
       \<Rightarrow> (exc + string \<times> candle list) \<times> state" where
  "attempt en s ex base_symbol timeframe lmt =
     (case find_perp_market_symbol en s ex base_symbol of
        (Inl e, s1) \<Rightarrow> (Inl e, s1)
      | (Inr market_symbol, s1) \<Rightarrow>
          (let s2 = s1\<lparr>calls := calls s1 @ [FetchOhlcv ex market_symbol timeframe lmt]\<rparr> in
           case fetch_ohlcv en ex market_symbol timeframe lmt of
             Inl e \<Rightarrow> (Inl e, s2)
           | Inr candles \<Rightarrow> (Inr (market_symbol, candles), s2)))"

text \<open>The rest of the \<open>try\<close> block, after both calls returned.\<close>

definition on_success :: "state \<Rightarrow> string \<Rightarrow> string \<Rightarrow> string \<Rightarrow> state" where
  "on_success s ex_name base_symbol timeframe =
     (let prev_pin = pinned_exchange s (base_symbol, timeframe);
          s1 = s\<lparr>pinned_exchange := (pinned_exchange s)((base_symbol, timeframe) \<mapsto> ex_name)\<rparr>
      in case prev_pin of
           None \<Rightarrow> s1
         | Some p \<Rightarrow>
             if p \<noteq> [] \<and> p \<noteq> ex_name
             then s1\<lparr>sent := sent s1 @ [Failover base_symbol timeframe p ex_name]\<rparr>
             else s1)"

definition mentions_market :: "exc \<Rightarrow> bool" where
  "mentions_market e =
     (let msg = lower (exc_msg e) in contains msg ''symbol'' \<or> contains msg ''market'')"

text \<open>The \<open>except\<close> block; \<open>t\<close> is its reading of \<open>time.time()\<close>.\<close>

definition on_error :: "config \<Rightarrow> real \<Rightarrow> state \<Rightarrow> string \<Rightarrow> string \<Rightarrow> exc \<Rightarrow> state" where
  "on_error cfg t s ex_name base_symbol e =
     (let s1 = (if is_recoverable e
                then s\<lparr>cooldown_until :=
                         (cooldown_until s)(ex_name \<mapsto> t + real_of_int (COOLDOWN_SECONDS cfg))\<rparr>
                else s)
      in if exc_class e = BadSymbol then s1
         else if mentions_market e
           then s1\<lparr>perp_symbol_cache := (perp_symbol_cache s1)((ex_name, base_symbol) := None)\<rparr>
         else s1)"

text \<open>What \<open>fetch_ohlcv_pinned\<close> raises: the sources tried and the last error.\<close>

datatype fetch_failure = RuntimeError "string list" "exc option"

text \<open>The \<open>for\<close> loop over the candidate order, with \<open>tried\<close> and \<open>last_err\<close>.\<close>

fun try_exchanges ::
    "config \<Rightarrow> env \<Rightarrow> string \<Rightarrow> string \<Rightarrow> int \<Rightarrow> string list \<Rightarrow> string list \<Rightarrow> exc option
       \<Rightarrow> state \<Rightarrow> (fetch_failure + string \<times> string \<times> candle list) \<times> state" where
  "try_exchanges cfg en base_symbol timeframe lmt [] tried last_err s =
     (Inl (RuntimeError tried last_err), s)"
| "try_exchanges cfg en base_symbol timeframe lmt (ex_name # rest) tried last_err s =
     (case attempt en s ex_name base_symbol timeframe lmt of
        (Inr (market_symbol, candles), s1) \<Rightarrow>
          (Inr (ex_name, market_symbol, candles), on_success s1 ex_name base_symbol timeframe)
      | (Inl e, s1) \<Rightarrow>
          try_exchanges cfg en base_symbol timeframe lmt rest (tried @ [ex_name]) (Some e)
            (on_error cfg (time_failure en ex_name) s1 ex_name base_symbol e))"

definition fetch_ohlcv_pinned ::
    "config \<Rightarrow> env \<Rightarrow> state \<Rightarrow> string \<Rightarrow> string \<Rightarrow> int
       \<Rightarrow> (fetch_failure + string \<times> string \<times> candle list) \<times> state" where
  "fetch_ohlcv_pinned cfg en s base_symbol timeframe lmt =
     try_exchanges cfg en base_symbol timeframe lmt
       (exchange_order_for s base_symbol timeframe (time_start en)) [] None s"

section \<open>get_rsi\<close>

text \<open>\<open>series.iloc[i]\<close> for a negative position \<open>-k\<close>: out of bounds raises IndexError.\<close>

definition iloc_neg :: "'a list \<Rightarrow> nat \<Rightarrow> 'a option" where
  "iloc_neg xs k = (if 0 < k \<and> k \<le> length xs then Some (xs ! (length xs - k)) else None)"

datatype rsi_failure = FetchFailed fetch_failure | IlocIndexError

text \<open>
  The indicator series of the library has one entry per close. No statement of the
  function looks at the number of candles.
\<close>

definition get_rsi ::
    "config \<Rightarrow> env \<Rightarrow> state \<Rightarrow> string \<Rightarrow> string
       \<Rightarrow> (rsi_failure + string \<times> string \<times> pyfloat \<times> pyfloat) \<times> state" where
  "get_rsi cfg en s base_symbol tf =
     (case fetch_ohlcv_pinned cfg en s base_symbol tf 100 of
        (Inl err, s1) \<Rightarrow> (Inl (FetchFailed err), s1)
      | (Inr (ex_name, market_symbol, candles), s1) \<Rightarrow>
          (let rsi = rsi_series en (map c_c candles) in
           case iloc_neg rsi 2 of
             None \<Rightarrow> (Inl IlocIndexError, s1)
           | Some prev_rsi \<Rightarrow>
               (case iloc_neg rsi 1 of
                  None \<Rightarrow> (Inl IlocIndexError, s1)
                | Some curr_rsi \<Rightarrow> (Inr (ex_name, market_symbol, prev_rsi, curr_rsi), s1))))"

section \<open>The body of the loop of run\<close>

definition series_key :: "string \<Rightarrow> string \<Rightarrow> string \<Rightarrow> string" where
  "series_key ex_name market_symbol tf = ex_name @ ''|'' @ market_symbol @ ''|'' @ tf"

text \<open>The statements after \<open>get_rsi\<close> returned, for one timeframe.\<close>

definition cross_step ::
    "config \<Rightarrow> state \<Rightarrow> string \<Rightarrow> string \<Rightarrow> string \<Rightarrow> pyfloat \<Rightarrow> pyfloat \<Rightarrow> state" where
  "cross_step cfg s ex_name market_symbol tf prev_rsi curr_rsi =
     (let key = series_key ex_name market_symbol tf in
      if last_state s key = None
      then s\<lparr>last_state := (last_state s)(key \<mapsto> curr_rsi)\<rparr>
      else
        (let s1 = (if fgt prev_rsi (RSI_LOW cfg) \<and> fle curr_rsi (RSI_LOW cfg)
                   then s\<lparr>sent := sent s @ [CrossBelow market_symbol tf curr_rsi ex_name]\<rparr>
                   else s);
             s2 = (if flt prev_rsi (RSI_HIGH cfg) \<and> fge curr_rsi (RSI_HIGH cfg)
                   then s1\<lparr>sent := sent s1 @ [CrossAbove market_symbol tf curr_rsi ex_name]\<rparr>
                   else s1)
         in s2\<lparr>last_state := (last_state s2)(key \<mapsto> curr_rsi)\<rparr>))"

text \<open>One pass of the \<open>for tf in TIMEFRAMES\<close> body; an exception is printed and dropped.\<close>

definition run_tf :: "config \<Rightarrow> env \<Rightarrow> state \<Rightarrow> string \<Rightarrow> state" where
  "run_tf cfg en s tf =
     (case get_rsi cfg en s (SYMBOL cfg) tf of
        (Inl err, s1) \<Rightarrow> s1
      | (Inr (ex_name, market_symbol, prev_rsi, curr_rsi), s1) \<Rightarrow>
          cross_step cfg s1 ex_name market_symbol tf prev_rsi curr_rsi)"

text \<open>The messages sent between two states.\<close>

definition emitted :: "state \<Rightarrow> state \<Rightarrow> message list" where
  "emitted s s' = drop (length (sent s)) (sent s')"

text \<open>The three tests of the loop over the catalog, as one predicate on a market.\<close>

definition matching_market :: "string \<Rightarrow> string \<Rightarrow> market \<Rightarrow> bool" where
  "matching_market base quote m =
     (truthy (dict_get_default (m_active m) (PyBool True))
      \<and> dict_get (m_base m) = PyStr base \<and> dict_get (m_quote m) = PyStr quote
      \<and> (dict_get (m_swap m) = PyBool True \<or> dict_get (m_type m) = PyStr ''swap''))"

text \<open>The state in which the loop goes on after a failed attempt on a source.\<close>

definition after_failure ::
    "config \<Rightarrow> env \<Rightarrow> state \<Rightarrow> string \<Rightarrow> string \<Rightarrow> string \<Rightarrow> int \<Rightarrow> state" where
  "after_failure cfg en s ex base_symbol timeframe lmt =
     on_error cfg (time_failure en ex) (snd (attempt en s ex base_symbol timeframe lmt)) ex
       base_symbol (projl (fst (attempt en s ex base_symbol timeframe lmt)))"

section \<open>Example inputs\<close>

definition default_config :: config where
  "default_config =
     \<lparr> RSI_LOW = 30, RSI_HIGH = 70, SYMBOL = ''BTC/USDT'', COOLDOWN_SECONDS = 120 \<rparr>"

text \<open>A state in which okx is pinned for BTC/USDT on 5m and kucoin cools down until 50.\<close>

definition pinned_okx_state :: state where
  "pinned_okx_state =
     initial_state
       \<lparr> pinned_exchange := [(''BTC/USDT'', ''5m'') \<mapsto> ''okx''],
         cooldown_until := (cooldown_until initial_state)(''kucoin'' \<mapsto> 50) \<rparr>"

definition timeout_error :: exc where
  "timeout_error =
     Exc RequestTimeout ''bybit GET https://api.bybit.com/v5/market/kline request timed out''"

text \<open>A state that has a stored value for the series of bybit on 5m.\<close>

definition observed_state :: state where
  "observed_state =
     initial_state
       \<lparr> last_state := [series_key ''bybit'' ''BTC/USDT:USDT'' ''5m'' \<mapsto> Fin 50] \<rparr>"

definition btc_spot :: market where
  "btc_spot = \<lparr> m_active = Some (PyBool True), m_base = Some (PyStr ''BTC''),
      m_quote = Some (PyStr ''USDT''), m_swap = Some (PyBool False), m_type = Some (PyStr ''spot''),
      m_linear = Some PyNone, m_symbol = Some ''BTC/USDT'' \<rparr>"

definition btc_swap_coin :: market where
  "btc_swap_coin = \<lparr> m_active = Some (PyBool True), m_base = Some (PyStr ''BTC''),
      m_quote = Some (PyStr ''USDT''), m_swap = Some (PyBool True), m_type = Some (PyStr ''swap''),
      m_linear = Some (PyBool False), m_symbol = Some ''BTC/USDT:BTC'' \<rparr>"

definition btc_swap_linear :: market where
  "btc_swap_linear = \<lparr> m_active = Some (PyBool True), m_base = Some (PyStr ''BTC''),
      m_quote = Some (PyStr ''USDT''), m_swap = Some (PyBool True), m_type = Some (PyStr ''swap''),
      m_linear = Some (PyBool True), m_symbol = Some ''BTC/USDT:USDT'' \<rparr>"

definition swap_catalog :: catalog where
  "swap_catalog = \<lparr> markets = [btc_spot, btc_swap_coin, btc_swap_linear],
      symbols = [''BTC/USDT'', ''BTC/USDT:BTC'', ''BTC/USDT:USDT''] \<rparr>"

definition spot_catalog :: catalog where
  "spot_catalog = \<lparr> markets = [btc_spot], symbols = [''BTC/USDT''] \<rparr>"

text \<open>
  The series of the indicator library for a window: Wilder's smoothing of the gains and the
  losses, undefined (NaN) before the window is filled and 100 where the smoothed loss is 0.
  It is written in exact arithmetic and stands for the external \<open>RSIIndicator(...).rsi()\<close>
  in the example environments only.
\<close>

fun ewm_from :: "real \<Rightarrow> real \<Rightarrow> real list \<Rightarrow> real list" where
  "ewm_from \<alpha> y [] = []"
| "ewm_from \<alpha> y (x # xs) = ((1 - \<alpha>) * y + \<alpha> * x) # ewm_from \<alpha> ((1 - \<alpha>) * y + \<alpha> * x) xs"

fun ewm_mean :: "real \<Rightarrow> real list \<Rightarrow> real list" where
  "ewm_mean \<alpha> [] = []"
| "ewm_mean \<alpha> (x # xs) = x # ewm_from \<alpha> x xs"

definition wilder_rsi :: "nat \<Rightarrow> real list \<Rightarrow> pyfloat list" where
  "wilder_rsi window closes =
     (if closes = [] then []
      else
        (let up = 0 # map2 (\<lambda>a b. max (b - a) 0) closes (tl closes);
             dn = 0 # map2 (\<lambda>a b. max (a - b) 0) closes (tl closes);
             emaup = ewm_mean (1 / real window) up;
             emadn = ewm_mean (1 / real window) dn
         in map (\<lambda>(i, u, d).
                   if i + 1 < window then NaN
                   else if d = 0 then Fin 100
                   else Fin (100 - 100 / (1 + u / d)))
              (zip [0..<length closes] (zip emaup emadn))))"

definition flat_candles :: "nat \<Rightarrow> candle list" where
  "flat_candles n =
     map (\<lambda>i. \<lparr> c_t = 300000 * real i, c_o = 100, c_h = 100, c_l = 100, c_c = 100, c_v = 1 \<rparr>)
       [0..<n]"

definition failover_env :: env where
  "failover_env =
     \<lparr> load_markets = (\<lambda>ex. if ex = ''okx'' then Inr spot_catalog else Inr swap_catalog),
       fetch_ohlcv = (\<lambda>ex market_symbol tf lmt.
                        if ex = ''bybit'' then Inl timeout_error else Inr (flat_candles 15)),
       time_start = 1000,
       time_failure = (\<lambda>ex. 1001),
       rsi_series = wilder_rsi 14 \<rparr>"

definition second_env :: env where
  "second_env =
     \<lparr> load_markets = (\<lambda>ex. if ex = ''okx'' then Inr spot_catalog else Inr swap_catalog),
       fetch_ohlcv = (\<lambda>ex market_symbol tf lmt.
                        if ex = ''okx'' then Inr (flat_candles 15)
                        else Inl (Exc ExchangeNotAvailable ''kucoin is down'')),
       time_start = 1030,
       time_failure = (\<lambda>ex. 1031),
       rsi_series = wilder_rsi 14 \<rparr>"

definition pinned_kucoin_state :: state where
  "pinned_kucoin_state =
     initial_state
       \<lparr> pinned_exchange := [(''BTC/USDT'', ''5m'') \<mapsto> ''kucoin''],
         cooldown_until := (cooldown_until initial_state)(''bybit'' \<mapsto> 1121),
         perp_symbol_cache := [(''kucoin'', ''BTC/USDT'') \<mapsto> ''BTC/USDT:USDT''] \<rparr>"


text \<open>An environment in which every provider is down.\<close>

definition down_env :: env where
  "down_env =
     \<lparr> load_markets = (\<lambda>ex. Inl (Exc ExchangeNotAvailable (ex @ '' is down''))),
       fetch_ohlcv = (\<lambda>ex market_symbol tf lmt. Inl (Exc ExchangeNotAvailable (ex @ '' is down''))),
       time_start = 1000,
       time_failure = (\<lambda>ex. 1001),
       rsi_series = wilder_rsi 14 \<rparr>"

text \<open>A state in which every source cools down until 1121.\<close>

definition cooling_state :: state where
  "cooling_state =
     initial_state
       \<lparr> cooldown_until := [''bybit'' \<mapsto> 1121, ''kucoin'' \<mapsto> 1121, ''okx'' \<mapsto> 1121] \<rparr>"

text \<open>
  An environment in which bybit rejects the cached market symbol, and a state that holds
  this cached symbol.
\<close>

definition bad_symbol_error :: exc where
  "bad_symbol_error = Exc BadSymbol ''bybit does not have market symbol BTC/USDT:USDT''"

definition stale_env :: env where
  "stale_env =
     \<lparr> load_markets = (\<lambda>ex. Inr swap_catalog),
       fetch_ohlcv = (\<lambda>ex market_symbol tf lmt.
                        if ex = ''bybit'' then Inl bad_symbol_error else Inr (flat_candles 15)),
       time_start = 1000,
       time_failure = (\<lambda>ex. 1001),
       rsi_series = wilder_rsi 14 \<rparr>"

definition cached_bybit_state :: state where
  "cached_bybit_state =
     initial_state \<lparr> perp_symbol_cache := [(''bybit'', ''BTC/USDT'') \<mapsto> ''BTC/USDT:USDT''] \<rparr>"

text \<open>An environment in which every provider answers with a single candle.\<close>

definition short_env :: env where
  "short_env =
     \<lparr> load_markets = (\<lambda>ex. Inr swap_catalog),
       fetch_ohlcv = (\<lambda>ex market_symbol tf lmt. Inr (flat_candles 1)),
       time_start = 1000,
       time_failure = (\<lambda>ex. 1001),
       rsi_series = wilder_rsi 14 \<rparr>"

section \<open>The candidate order\<close>

lemma append_missing_distinct:
  "distinct xs \<Longrightarrow> append_missing order xs = order @ filter (\<lambda>x. x \<notin> set order) xs"
proof (induction xs arbitrary: order)
  case Nil
  then show ?case by simp
next
  case (Cons x xs)
  have "filter (\<lambda>y. y \<noteq> x \<and> y \<notin> set order) xs = filter (\<lambda>y. y \<notin> set order) xs"
    using Cons.prems by (intro filter_cong) auto
  with Cons show ?case by simp
qed

lemma distinct_EXCHANGES: "distinct EXCHANGES"
  by (simp add: EXCHANGES_def)

lemma exchange_order_for_eq:
  "exchange_order_for s symbol tf now =
     filter (\<lambda>ex. \<not> now < cooldown_get s ex)
       (case pinned_exchange s (symbol, tf) of
          None \<Rightarrow> EXCHANGES
        | Some p \<Rightarrow> if p \<in> set EXCHANGES then p # removeAll p EXCHANGES else EXCHANGES)"
  by (auto simp: exchange_order_for_def append_missing_distinct distinct_EXCHANGES
      removeAll_filter_not_eq not_less split: option.splits intro: filter_cong)

lemma set_exchange_order_for:
  "set (exchange_order_for s symbol tf now) = {ex \<in> set EXCHANGES. cooldown_get s ex \<le> now}"
  by (auto simp: exchange_order_for_eq split: option.splits)

lemma distinct_exchange_order_for: "distinct (exchange_order_for s symbol tf now)"
  by (auto simp: exchange_order_for_eq distinct_EXCHANGES distinct_removeAll split: option.splits)

text \<open>
  C5. For every symbol, timeframe and time \<open>now\<close>, \<open>exchange_order_for\<close> returns the pinned
  source first when a pin exists for (symbol, timeframe) and names a known source, then the
  remaining sources in the fixed priority order, without duplicates, and with every source
  whose cooldown expiry exceeds \<open>now\<close> removed; a pin that names an unknown source is
  ignored.
\<close>

theorem exchange_order_for_spec:
  "exchange_order_for s symbol tf now =
     filter (\<lambda>ex. \<not> cooldown_get s ex > now)
       (case pinned_exchange s (symbol, tf) of
          None \<Rightarrow> EXCHANGES
        | Some p \<Rightarrow> if p \<in> set EXCHANGES then p # removeAll p EXCHANGES else EXCHANGES)
   \<and> distinct (exchange_order_for s symbol tf now)"
  using exchange_order_for_eq [of s symbol tf now] distinct_exchange_order_for [of s symbol tf now]
  by simp

theorem exchange_order_for_spec_witness:
  "exchange_order_for pinned_okx_state ''BTC/USDT'' ''5m'' 49 = [''okx'', ''bybit'']
   \<and> exchange_order_for pinned_okx_state ''BTC/USDT'' ''1h'' 50 = [''bybit'', ''kucoin'', ''okx'']"
  using exchange_order_for_spec [of pinned_okx_state "''BTC/USDT''" "''5m''" 49]
    exchange_order_for_spec [of pinned_okx_state "''BTC/USDT''" "''1h''" 50]
  by (simp add: pinned_okx_state_def initial_state_def EXCHANGES_def cooldown_get_def)

text \<open>
  C6. A source put in cooldown at time \<open>T\<close> (the handler of a recoverable failure stores
  \<open>T + COOLDOWN_SECONDS\<close> as its expiry) is absent from every candidate order computed
  with \<open>now < T + COOLDOWN_SECONDS\<close> and present in every one computed with
  \<open>now \<ge> T + COOLDOWN_SECONDS\<close>, the bound included, in any later state that still
  holds this expiry.
\<close>

theorem cooldown_window:
  assumes "ex_name \<in> set EXCHANGES" and "is_recoverable e"
    and "cooldown_until s' ex_name
           = cooldown_until (on_error cfg T s ex_name base_symbol e) ex_name"
  shows "cooldown_until s' ex_name = Some (T + real_of_int (COOLDOWN_SECONDS cfg))
       \<and> (ex_name \<in> set (exchange_order_for s' symbol tf now)
            \<longleftrightarrow> T + real_of_int (COOLDOWN_SECONDS cfg) \<le> now)"
proof -
  have "cooldown_until (on_error cfg T s ex_name base_symbol e) ex_name
          = Some (T + real_of_int (COOLDOWN_SECONDS cfg))"
    using assms(2) by (simp add: on_error_def Let_def)
  with assms(3) have exp: "cooldown_until s' ex_name = Some (T + real_of_int (COOLDOWN_SECONDS cfg))"
    by simp
  then have "cooldown_get s' ex_name = T + real_of_int (COOLDOWN_SECONDS cfg)"
    by (simp add: cooldown_get_def)
  with assms(1) exp show ?thesis
    by (simp add: set_exchange_order_for)
qed

theorem cooldown_window_witness:
  "''bybit'' \<in> set EXCHANGES \<and> is_recoverable timeout_error
   \<and> ''bybit'' \<notin> set (exchange_order_for
         (on_error default_config 1000 initial_state ''bybit'' ''BTC/USDT'' timeout_error)
         ''BTC/USDT'' ''5m'' 1119)
   \<and> ''bybit'' \<in> set (exchange_order_for
         (on_error default_config 1000 initial_state ''bybit'' ''BTC/USDT'' timeout_error)
         ''BTC/USDT'' ''5m'' 1120)"
proof -
  have a: "''bybit'' \<in> set EXCHANGES"
    by (simp add: EXCHANGES_def)
  have b: "is_recoverable timeout_error"
    by (simp add: is_recoverable_def timeout_error_def)
  show ?thesis
    using a b
      cooldown_window [OF a b refl, of default_config 1000 initial_state "''BTC/USDT''"
        "''BTC/USDT''" "''5m''" 1119]
      cooldown_window [OF a b refl, of default_config 1000 initial_state "''BTC/USDT''"
        "''BTC/USDT''" "''5m''" 1120]
    by (simp add: default_config_def)
qed

section \<open>Cross detection\<close>

text \<open>
  C7. In a cross-detection step on a series key: when the key has no stored value, the
  current value is stored and nothing is sent, whatever the previous and current values
  are; otherwise the downward-cross message is sent exactly when previous > LOW and
  current <= LOW, the upward-cross message exactly when previous < HIGH and
  current >= HIGH, and the stored value becomes the current one whether or not a message
  was sent.
\<close>

theorem cross_step_spec:
  "last_state (cross_step cfg s ex_name market_symbol tf prev_rsi curr_rsi)
     = (last_state s)(series_key ex_name market_symbol tf \<mapsto> curr_rsi)
   \<and> sent (cross_step cfg s ex_name market_symbol tf prev_rsi curr_rsi)
     = (if last_state s (series_key ex_name market_symbol tf) = None then sent s
        else sent s
          @ (if fgt prev_rsi (RSI_LOW cfg) \<and> fle curr_rsi (RSI_LOW cfg)
             then [CrossBelow market_symbol tf curr_rsi ex_name] else [])
          @ (if flt prev_rsi (RSI_HIGH cfg) \<and> fge curr_rsi (RSI_HIGH cfg)
             then [CrossAbove market_symbol tf curr_rsi ex_name] else []))"
  by (simp add: cross_step_def Let_def)

theorem cross_step_spec_witness:
  "sent (cross_step default_config observed_state ''bybit'' ''BTC/USDT:USDT'' ''5m'' (Fin 69) (Fin 71))
     = [CrossAbove ''BTC/USDT:USDT'' ''5m'' (Fin 71) ''bybit'']
   \<and> sent (cross_step default_config observed_state ''bybit'' ''BTC/USDT:USDT'' ''5m'' (Fin 31) (Fin 29))
     = [CrossBelow ''BTC/USDT:USDT'' ''5m'' (Fin 29) ''bybit'']
   \<and> sent (cross_step default_config observed_state ''bybit'' ''BTC/USDT:USDT'' ''5m'' (Fin 50) (Fin 55))
     = []
   \<and> sent (cross_step default_config initial_state ''bybit'' ''BTC/USDT:USDT'' ''5m'' (Fin 69) (Fin 71))
     = []"
  using cross_step_spec [of default_config observed_state "''bybit''" "''BTC/USDT:USDT''" "''5m''" "Fin 69" "Fin 71"]
    cross_step_spec [of default_config observed_state "''bybit''" "''BTC/USDT:USDT''" "''5m''" "Fin 31" "Fin 29"]
    cross_step_spec [of default_config observed_state "''bybit''" "''BTC/USDT:USDT''" "''5m''" "Fin 50" "Fin 55"]
    cross_step_spec [of default_config initial_state "''bybit''" "''BTC/USDT:USDT''" "''5m''" "Fin 69" "Fin 71"]
  by (simp add: default_config_def observed_state_def initial_state_def)

text \<open>
  C10. For a series key that has a stored value, the messages a cross-detection step sends
  depend on the fresh (previous, current) pair and the thresholds only: two steps from
  states that both have (or both lack) a stored value for the key, however these values
  differ, send the same messages. The stored value is read only to tell the first
  observation from the later ones.
\<close>

theorem cross_events_ignore_stored_value:
  assumes "last_state s1 (series_key ex_name market_symbol tf) = None
             \<longleftrightarrow> last_state s2 (series_key ex_name market_symbol tf) = None"
  shows "emitted s1 (cross_step cfg s1 ex_name market_symbol tf prev_rsi curr_rsi)
       = emitted s2 (cross_step cfg s2 ex_name market_symbol tf prev_rsi curr_rsi)"
  using assms by (simp add: cross_step_def Let_def emitted_def)

theorem cross_events_ignore_stored_value_witness:
  "last_state observed_state (series_key ''bybit'' ''BTC/USDT:USDT'' ''5m'') = Some (Fin 50)
   \<and> last_state (observed_state\<lparr>last_state := [series_key ''bybit'' ''BTC/USDT:USDT'' ''5m'' \<mapsto> Fin 90]\<rparr>)
        (series_key ''bybit'' ''BTC/USDT:USDT'' ''5m'') = Some (Fin 90)
   \<and> emitted observed_state
        (cross_step default_config observed_state ''bybit'' ''BTC/USDT:USDT'' ''5m'' (Fin 69) (Fin 71))
     = emitted (observed_state\<lparr>last_state := [series_key ''bybit'' ''BTC/USDT:USDT'' ''5m'' \<mapsto> Fin 90]\<rparr>)
        (cross_step default_config
           (observed_state\<lparr>last_state := [series_key ''bybit'' ''BTC/USDT:USDT'' ''5m'' \<mapsto> Fin 90]\<rparr>)
           ''bybit'' ''BTC/USDT:USDT'' ''5m'' (Fin 69) (Fin 71))"
proof -
  have a: "last_state observed_state (series_key ''bybit'' ''BTC/USDT:USDT'' ''5m'') = Some (Fin 50)"
    by (simp add: observed_state_def)
  have b: "last_state (observed_state\<lparr>last_state := [series_key ''bybit'' ''BTC/USDT:USDT'' ''5m'' \<mapsto> Fin 90]\<rparr>)
        (series_key ''bybit'' ''BTC/USDT:USDT'' ''5m'') = Some (Fin 90)"
    by simp
  from a b have c: "last_state observed_state (series_key ''bybit'' ''BTC/USDT:USDT'' ''5m'') = None
      \<longleftrightarrow> last_state (observed_state\<lparr>last_state := [series_key ''bybit'' ''BTC/USDT:USDT'' ''5m'' \<mapsto> Fin 90]\<rparr>)
        (series_key ''bybit'' ''BTC/USDT:USDT'' ''5m'') = None"
    by simp
  show ?thesis
    using a b cross_events_ignore_stored_value [OF c, of default_config "Fin 69" "Fin 71"]
    by simp
qed

section \<open>The market resolver\<close>

lemma collect_candidates_filter:
  "collect_candidates base quote ms = filter (matching_market base quote) ms"
  by (induction ms) (auto simp: matching_market_def)

lemma find_filter: "find P xs = (case filter P xs of [] \<Rightarrow> None | x # _ \<Rightarrow> Some x)"
  by (induction xs) auto

lemmas example_defs =
  failover_env_def second_env_def initial_state_def pinned_kucoin_state_def
  swap_catalog_def spot_catalog_def btc_spot_def btc_swap_coin_def btc_swap_linear_def
  timeout_error_def default_config_def

lemmas run_defs =
  attempt_def find_perp_market_symbol_def dict_get_def dict_get_default_def is_linear_def
  Let_def exchange_order_for_def cooldown_get_def EXCHANGES_def

text \<open>
  C8. On a cache miss, with the catalog loaded and the base symbol split into base and
  quote, \<open>find_perp_market_symbol\<close> looks at the active markets of the catalog whose base
  and quote are these components and which are swaps: it returns the symbol of the first
  linear one if there is one, otherwise of the first one in the catalog's order; when there
  is none and the base symbol is itself a symbol of the source, it returns the base symbol
  unchanged; otherwise it raises BadSymbol.
\<close>

theorem find_perp_market_symbol_miss:
  assumes "perp_symbol_cache s (ex, base_symbol) = None"
    and "load_markets en ex = Inr cat"
    and "split_on CHR ''/'' base_symbol = [base, quote]"
  shows "fst (find_perp_market_symbol en s ex base_symbol) =
     (case find is_linear (filter (matching_market base quote) (markets cat)) of
        Some m \<Rightarrow> (case m_symbol m of Some chosen \<Rightarrow> Inr chosen
                                     | None \<Rightarrow> Inl (Exc KeyError key_error_msg))
      | None \<Rightarrow>
         (case filter (matching_market base quote) (markets cat) of
            m # _ \<Rightarrow> (case m_symbol m of Some chosen \<Rightarrow> Inr chosen
                                        | None \<Rightarrow> Inl (Exc KeyError key_error_msg))
          | [] \<Rightarrow> if base_symbol \<in> set (symbols cat) then Inr base_symbol
                  else Inl (Exc BadSymbol (not_found_msg base_symbol ex))))"
proof -
  define cands where "cands = filter (matching_market base quote) (markets cat)"
  have run: "fst (find_perp_market_symbol en s ex base_symbol) =
     (if cands = [] then
        (if base_symbol \<in> set (symbols cat) then Inr base_symbol
         else Inl (Exc BadSymbol (not_found_msg base_symbol ex)))
      else (case m_symbol (if filter is_linear cands \<noteq> [] then hd (filter is_linear cands)
                           else hd cands) of
              None \<Rightarrow> Inl (Exc KeyError key_error_msg)
            | Some chosen \<Rightarrow> Inr chosen))"
    using assms
    by (simp add: find_perp_market_symbol_def Let_def collect_candidates_filter cands_def
        split: option.splits)
  show ?thesis
  proof (cases cands)
    case Nil
    then show ?thesis
      unfolding run cands_def [symmetric] by simp
  next
    case (Cons c cs)
    show ?thesis
    proof (cases "filter is_linear cands")
      case Nil
      with Cons show ?thesis
        unfolding run cands_def [symmetric] find_filter by simp
    next
      case (Cons l ls)
      then have "cands \<noteq> []" by auto
      with Cons show ?thesis
        unfolding run cands_def [symmetric] find_filter by simp
    qed
  qed
qed

theorem find_perp_market_symbol_miss_witness:
  "fst (find_perp_market_symbol failover_env initial_state ''bybit'' ''BTC/USDT'')
     = Inr ''BTC/USDT:USDT''
   \<and> fst (find_perp_market_symbol failover_env initial_state ''okx'' ''BTC/USDT'')
     = Inr ''BTC/USDT''"
proof -
  have c: "perp_symbol_cache initial_state (''bybit'', ''BTC/USDT'') = None"
    "perp_symbol_cache initial_state (''okx'', ''BTC/USDT'') = None"
    by (simp_all add: initial_state_def)
  have l: "load_markets failover_env ''bybit'' = Inr swap_catalog"
    "load_markets failover_env ''okx'' = Inr spot_catalog"
    by (simp_all add: failover_env_def)
  have sp: "split_on CHR ''/'' ''BTC/USDT'' = [''BTC'', ''USDT'']"
    by simp
  show ?thesis
    using find_perp_market_symbol_miss [OF c(1) l(1) sp]
      find_perp_market_symbol_miss [OF c(2) l(2) sp]
    by (simp add: example_defs matching_market_def is_linear_def dict_get_def
        dict_get_default_def)
qed

lemma find_perp_market_symbol_hit:
  "perp_symbol_cache s (ex, base_symbol) = Some cached
     \<Longrightarrow> find_perp_market_symbol en s ex base_symbol = (Inr cached, s)"
  by (simp add: find_perp_market_symbol_def)

lemma find_perp_market_symbol_caches:
  assumes "find_perp_market_symbol en s ex base_symbol = (Inr chosen, s1)"
  shows "perp_symbol_cache s1 (ex, base_symbol) = Some chosen"
proof (cases "perp_symbol_cache s (ex, base_symbol)")
  case (Some cached)
  with assms show ?thesis
    by (simp add: find_perp_market_symbol_def)
next
  case None
  with assms show ?thesis
    by (auto simp: find_perp_market_symbol_def Let_def
        split: sum.splits list.splits if_splits option.splits)
qed

lemma find_perp_market_symbol_calls:
  "calls (snd (find_perp_market_symbol en s ex base_symbol)) =
     calls s @ (if perp_symbol_cache s (ex, base_symbol) = None then [LoadMarkets ex] else [])"
  by (simp add: find_perp_market_symbol_def Let_def
      split: sum.splits list.splits if_splits option.splits)

lemma find_perp_market_symbol_miss_fails:
  assumes "fst (find_perp_market_symbol en s ex base_symbol) = Inl e"
  shows "perp_symbol_cache s (ex, base_symbol) = None
       \<and> perp_symbol_cache (snd (find_perp_market_symbol en s ex base_symbol)) (ex, base_symbol)
           = None"
  using assms
  by (auto simp: find_perp_market_symbol_def Let_def
      split: sum.splits list.splits if_splits option.splits)

lemma resolve_okx_fallback:
  "find_perp_market_symbol failover_env initial_state ''okx'' ''BTC/USDT''
     = (Inr ''BTC/USDT'',
        initial_state
          \<lparr> perp_symbol_cache := [(''okx'', ''BTC/USDT'') \<mapsto> ''BTC/USDT''],
            calls := [LoadMarkets ''okx''] \<rparr>)"
  by (simp add: example_defs run_defs)

lemma resolve_okx_missing:
  "find_perp_market_symbol failover_env initial_state ''okx'' ''ETH/USDT''
     = (Inl (Exc BadSymbol (not_found_msg ''ETH/USDT'' ''okx'')),
        initial_state \<lparr> calls := [LoadMarkets ''okx''] \<rparr>)"
  by (simp add: example_defs run_defs)

lemma resolve_okx_missing_again:
  "find_perp_market_symbol failover_env (initial_state \<lparr> calls := [LoadMarkets ''okx''] \<rparr>)
     ''okx'' ''ETH/USDT''
     = (Inl (Exc BadSymbol (not_found_msg ''ETH/USDT'' ''okx'')),
        initial_state \<lparr> calls := [LoadMarkets ''okx'', LoadMarkets ''okx''] \<rparr>)"
  by (simp add: example_defs run_defs)

text \<open>
  C9 (amended). When the first call of \<open>find_perp_market_symbol\<close> for a source and a base
  symbol returns a market symbol, whichever path it took (the raw-symbol fallback
  included), it leaves this symbol in the cache, and it called \<open>load_markets\<close> exactly once
  if the cache had no entry and not at all if it had one; a second call in the state it
  leaves (no eviction in between) returns the same symbol and changes nothing, so it is a
  cache hit and calls \<open>load_markets\<close> no more: over the two calls the catalog is loaded at
  most once. A first call that raises is not covered: it caches nothing.
\<close>

theorem find_perp_market_symbol_second_call:
  assumes "fst (find_perp_market_symbol en s ex base_symbol) = Inr chosen"
  shows "perp_symbol_cache (snd (find_perp_market_symbol en s ex base_symbol)) (ex, base_symbol)
           = Some chosen
       \<and> calls (snd (find_perp_market_symbol en s ex base_symbol))
           = calls s @ (if perp_symbol_cache s (ex, base_symbol) = None
                        then [LoadMarkets ex] else [])
       \<and> find_perp_market_symbol en (snd (find_perp_market_symbol en s ex base_symbol))
            ex base_symbol
           = (Inr chosen, snd (find_perp_market_symbol en s ex base_symbol))"
proof -
  let ?s1 = "snd (find_perp_market_symbol en s ex base_symbol)"
  have first: "find_perp_market_symbol en s ex base_symbol = (Inr chosen, ?s1)"
    using assms by (simp add: prod_eq_iff)
  then have cached: "perp_symbol_cache ?s1 (ex, base_symbol) = Some chosen"
    by (rule find_perp_market_symbol_caches)
  then have again: "find_perp_market_symbol en ?s1 ex base_symbol = (Inr chosen, ?s1)"
    by (rule find_perp_market_symbol_hit)
  from cached again show ?thesis
    by (simp add: find_perp_market_symbol_calls)
qed

theorem find_perp_market_symbol_second_call_witness:
  "find_perp_market_symbol failover_env initial_state ''okx'' ''BTC/USDT''
     = (Inr ''BTC/USDT'',
        initial_state
          \<lparr> perp_symbol_cache := [(''okx'', ''BTC/USDT'') \<mapsto> ''BTC/USDT''],
            calls := [LoadMarkets ''okx''] \<rparr>)
   \<and> find_perp_market_symbol failover_env
       (snd (find_perp_market_symbol failover_env initial_state ''okx'' ''BTC/USDT''))
       ''okx'' ''BTC/USDT''
     = (Inr ''BTC/USDT'',
        initial_state
          \<lparr> perp_symbol_cache := [(''okx'', ''BTC/USDT'') \<mapsto> ''BTC/USDT''],
            calls := [LoadMarkets ''okx''] \<rparr>)"
proof -
  have first: "fst (find_perp_market_symbol failover_env initial_state ''okx'' ''BTC/USDT'')
                 = Inr ''BTC/USDT''"
    by (simp add: resolve_okx_fallback)
  show ?thesis
    using find_perp_market_symbol_second_call [OF first]
    by (simp add: resolve_okx_fallback)
qed

text \<open>
  The claim as it was stated, for every source and base symbol, fails where the first call
  raises: okx lists no ETH/USDT market, the call raises BadSymbol and caches nothing, and
  the second call with the same catalog loads the catalog again.
\<close>

theorem resolver_two_discoveries_counterexample:
  "perp_symbol_cache initial_state (''okx'', ''ETH/USDT'') = None
   \<and> fst (find_perp_market_symbol failover_env initial_state ''okx'' ''ETH/USDT'')
     = Inl (Exc BadSymbol (not_found_msg ''ETH/USDT'' ''okx''))
   \<and> fst (find_perp_market_symbol failover_env
            (snd (find_perp_market_symbol failover_env initial_state ''okx'' ''ETH/USDT''))
            ''okx'' ''ETH/USDT'')
     = Inl (Exc BadSymbol (not_found_msg ''ETH/USDT'' ''okx''))
   \<and> calls (snd (find_perp_market_symbol failover_env
            (snd (find_perp_market_symbol failover_env initial_state ''okx'' ''ETH/USDT''))
            ''okx'' ''ETH/USDT''))
     = [LoadMarkets ''okx'', LoadMarkets ''okx'']"
proof -
  have "perp_symbol_cache initial_state (''okx'', ''ETH/USDT'') = None"
    by (simp add: initial_state_def)
  then show ?thesis
    by (simp add: resolve_okx_missing resolve_okx_missing_again)
qed

section \<open>The failover fetcher\<close>

text \<open>
  What an attempt on a source returns depends on the environment and on the cached symbol
  of that source only, and a failed attempt on a source touches the cached symbol and the
  cooldown of that source only. The candidate order has no duplicates, so the attempts of
  one call can be read in the state the call starts from.
\<close>

lemma find_perp_market_symbol_fst_cong:
  "perp_symbol_cache s (ex, base_symbol) = perp_symbol_cache s' (ex, base_symbol)
     \<Longrightarrow> fst (find_perp_market_symbol en s ex base_symbol)
         = fst (find_perp_market_symbol en s' ex base_symbol)"
  by (simp add: find_perp_market_symbol_def Let_def
      split: sum.splits list.splits if_splits option.splits)

lemma find_perp_market_symbol_frame:
  "pinned_exchange (snd (find_perp_market_symbol en s ex base_symbol)) = pinned_exchange s"
  "sent (snd (find_perp_market_symbol en s ex base_symbol)) = sent s"
  "cooldown_until (snd (find_perp_market_symbol en s ex base_symbol)) = cooldown_until s"
  "last_state (snd (find_perp_market_symbol en s ex base_symbol)) = last_state s"
  by (simp_all add: find_perp_market_symbol_def Let_def
      split: sum.splits list.splits if_splits option.splits)

lemma find_perp_market_symbol_cache_other:
  "k \<noteq> (ex, base_symbol)
     \<Longrightarrow> perp_symbol_cache (snd (find_perp_market_symbol en s ex base_symbol)) k
         = perp_symbol_cache s k"
  by (simp add: find_perp_market_symbol_def Let_def
      split: sum.splits list.splits if_splits option.splits)

lemma attempt_unfold:
  "attempt en s ex base_symbol timeframe lmt =
     (case fst (find_perp_market_symbol en s ex base_symbol) of
        Inl e \<Rightarrow> (Inl e, snd (find_perp_market_symbol en s ex base_symbol))
      | Inr market_symbol \<Rightarrow>
          (case fetch_ohlcv en ex market_symbol timeframe lmt of
             Inl e \<Rightarrow> Inl e
           | Inr candles \<Rightarrow> Inr (market_symbol, candles),
           snd (find_perp_market_symbol en s ex base_symbol)
             \<lparr>calls := calls (snd (find_perp_market_symbol en s ex base_symbol))
                        @ [FetchOhlcv ex market_symbol timeframe lmt]\<rparr>))"
  by (simp add: attempt_def Let_def split: prod.splits sum.splits)

lemma attempt_fst_cong:
  "perp_symbol_cache s (ex, base_symbol) = perp_symbol_cache s' (ex, base_symbol)
     \<Longrightarrow> fst (attempt en s ex base_symbol timeframe lmt)
         = fst (attempt en s' ex base_symbol timeframe lmt)"
  using find_perp_market_symbol_fst_cong [of s ex base_symbol s' en]
  by (simp add: attempt_unfold split: sum.splits)

lemma attempt_frame:
  "pinned_exchange (snd (attempt en s ex base_symbol timeframe lmt)) = pinned_exchange s"
  "sent (snd (attempt en s ex base_symbol timeframe lmt)) = sent s"
  "cooldown_until (snd (attempt en s ex base_symbol timeframe lmt)) = cooldown_until s"
  "last_state (snd (attempt en s ex base_symbol timeframe lmt)) = last_state s"
  by (simp_all add: attempt_unfold find_perp_market_symbol_frame split: sum.splits)

lemma attempt_cache_other:
  "k \<noteq> (ex, base_symbol)
     \<Longrightarrow> perp_symbol_cache (snd (attempt en s ex base_symbol timeframe lmt)) k
         = perp_symbol_cache s k"
  by (simp add: attempt_unfold find_perp_market_symbol_cache_other split: sum.splits)

lemma attempt_calls:
  "\<exists>new. calls (snd (attempt en s ex base_symbol timeframe lmt)) = calls s @ new
         \<and> call_exchange ` set new = {ex}"
proof (cases "fst (find_perp_market_symbol en s ex base_symbol)")
  case (Inl e)
  then have "perp_symbol_cache s (ex, base_symbol) = None"
    by (auto simp: find_perp_market_symbol_def split: option.splits)
  with Inl show ?thesis
    by (simp add: attempt_unfold find_perp_market_symbol_calls)
next
  case (Inr market_symbol)
  then show ?thesis
    by (auto simp: attempt_unfold find_perp_market_symbol_calls)
qed

lemma on_error_frame:
  "pinned_exchange (on_error cfg t s ex base_symbol e) = pinned_exchange s"
  "sent (on_error cfg t s ex base_symbol e) = sent s"
  "calls (on_error cfg t s ex base_symbol e) = calls s"
  "last_state (on_error cfg t s ex base_symbol e) = last_state s"
  by (simp_all add: on_error_def Let_def)

lemma on_error_cache_other:
  "k \<noteq> (ex, base_symbol)
     \<Longrightarrow> perp_symbol_cache (on_error cfg t s ex base_symbol e) k = perp_symbol_cache s k"
  by (simp add: on_error_def Let_def)

lemma on_error_cooldown_other:
  "x \<noteq> ex \<Longrightarrow> cooldown_until (on_error cfg t s ex base_symbol e) x = cooldown_until s x"
  by (simp add: on_error_def Let_def)

lemma try_exchanges_fail_step:
  "isl (fst (attempt en s ex base_symbol timeframe lmt))
     \<Longrightarrow> try_exchanges cfg en base_symbol timeframe lmt (ex # rest) tried last_err s
         = try_exchanges cfg en base_symbol timeframe lmt rest (tried @ [ex])
             (Some (projl (fst (attempt en s ex base_symbol timeframe lmt))))
             (after_failure cfg en s ex base_symbol timeframe lmt)"
  by (cases "attempt en s ex base_symbol timeframe lmt")
     (auto simp: after_failure_def split: sum.splits)

lemma try_exchanges_success_step:
  "fst (attempt en s ex base_symbol timeframe lmt) = Inr (market_symbol, candles)
     \<Longrightarrow> try_exchanges cfg en base_symbol timeframe lmt (ex # rest) tried last_err s
         = (Inr (ex, market_symbol, candles),
            on_success (snd (attempt en s ex base_symbol timeframe lmt)) ex base_symbol timeframe)"
  by (cases "attempt en s ex base_symbol timeframe lmt") auto

lemma after_failure_frame:
  "pinned_exchange (after_failure cfg en s ex base_symbol timeframe lmt) = pinned_exchange s"
  "sent (after_failure cfg en s ex base_symbol timeframe lmt) = sent s"
  "last_state (after_failure cfg en s ex base_symbol timeframe lmt) = last_state s"
  by (simp_all add: after_failure_def on_error_frame attempt_frame)

lemma after_failure_cache_other:
  "x \<noteq> ex \<Longrightarrow> perp_symbol_cache (after_failure cfg en s ex base_symbol timeframe lmt) (x, b)
                = perp_symbol_cache s (x, b)"
  by (simp add: after_failure_def on_error_cache_other attempt_cache_other)

lemma after_failure_calls:
  "\<exists>new. calls (after_failure cfg en s ex base_symbol timeframe lmt) = calls s @ new
         \<and> call_exchange ` set new = {ex}"
  using attempt_calls [of en s ex base_symbol timeframe lmt]
  by (simp add: after_failure_def on_error_frame)

lemma after_failure_attempt:
  "x \<noteq> ex \<Longrightarrow> fst (attempt en (after_failure cfg en s ex base_symbol timeframe lmt) x base_symbol timeframe lmt)
               = fst (attempt en s x base_symbol timeframe lmt)"
  by (rule attempt_fst_cong) (simp add: after_failure_cache_other)


lemma on_success_pinned:
  "pinned_exchange (on_success s ex base_symbol timeframe)
     = (pinned_exchange s)((base_symbol, timeframe) \<mapsto> ex)"
  by (simp add: on_success_def Let_def split: option.splits)

lemma on_success_sent:
  "sent (on_success s ex base_symbol timeframe)
     = sent s @ (case pinned_exchange s (base_symbol, timeframe) of
                   None \<Rightarrow> []
                 | Some p \<Rightarrow> if p \<noteq> [] \<and> p \<noteq> ex
                             then [Failover base_symbol timeframe p ex] else [])"
  by (simp add: on_success_def Let_def split: option.splits)

lemma on_success_calls: "calls (on_success s ex base_symbol timeframe) = calls s"
  by (simp add: on_success_def Let_def split: option.splits)

lemma try_exchanges_first_success:
  assumes "distinct (pre @ ex # post)"
    and "\<forall>x\<in>set pre. isl (fst (attempt en s x base_symbol timeframe lmt))"
    and "fst (attempt en s ex base_symbol timeframe lmt) = Inr (market_symbol, candles)"
  shows "\<exists>s' new.
           try_exchanges cfg en base_symbol timeframe lmt (pre @ ex # post) tried last_err s
             = (Inr (ex, market_symbol, candles), s')
         \<and> pinned_exchange s' = (pinned_exchange s)((base_symbol, timeframe) \<mapsto> ex)
         \<and> sent s' = sent s @ (case pinned_exchange s (base_symbol, timeframe) of
                                 None \<Rightarrow> []
                               | Some p \<Rightarrow> if p \<noteq> [] \<and> p \<noteq> ex
                                           then [Failover base_symbol timeframe p ex] else [])
         \<and> calls s' = calls s @ new
         \<and> call_exchange ` set new = set pre \<union> {ex}"
  using assms
proof (induction pre arbitrary: s tried last_err)
  case Nil
  obtain new where new: "calls (snd (attempt en s ex base_symbol timeframe lmt)) = calls s @ new"
      "call_exchange ` set new = {ex}"
    using attempt_calls [of en s ex base_symbol timeframe lmt] by blast
  have "try_exchanges cfg en base_symbol timeframe lmt ([] @ ex # post) tried last_err s
          = (Inr (ex, market_symbol, candles),
             on_success (snd (attempt en s ex base_symbol timeframe lmt)) ex base_symbol timeframe)"
    using Nil.prems(3) by (simp only: append_Nil try_exchanges_success_step)
  then show ?case
    using new
    by (intro exI [of _ "on_success (snd (attempt en s ex base_symbol timeframe lmt)) ex
          base_symbol timeframe"] exI [of _ new])
       (simp add: on_success_pinned on_success_sent on_success_calls attempt_frame
          del: try_exchanges.simps)
next
  case (Cons x pre)
  let ?s1 = "after_failure cfg en s x base_symbol timeframe lmt"
  have fail: "isl (fst (attempt en s x base_symbol timeframe lmt))"
    using Cons.prems(2) by simp
  have dist: "distinct (pre @ ex # post)" and nx: "x \<notin> set pre" "x \<noteq> ex"
    using Cons.prems(1) by auto
  have pre_fail: "\<forall>y\<in>set pre. isl (fst (attempt en ?s1 y base_symbol timeframe lmt))"
  proof
    fix y assume y: "y \<in> set pre"
    with nx have "y \<noteq> x" by auto
    then show "isl (fst (attempt en ?s1 y base_symbol timeframe lmt))"
      using Cons.prems(2) y by (simp add: after_failure_attempt)
  qed
  have ok: "fst (attempt en ?s1 ex base_symbol timeframe lmt) = Inr (market_symbol, candles)"
    using Cons.prems(3) nx by (simp add: after_failure_attempt)
  obtain s' new where ih:
    "try_exchanges cfg en base_symbol timeframe lmt (pre @ ex # post) (tried @ [x])
       (Some (projl (fst (attempt en s x base_symbol timeframe lmt)))) ?s1
       = (Inr (ex, market_symbol, candles), s')"
    "pinned_exchange s' = (pinned_exchange ?s1)((base_symbol, timeframe) \<mapsto> ex)"
    "sent s' = sent ?s1 @ (case pinned_exchange ?s1 (base_symbol, timeframe) of
                                 None \<Rightarrow> []
                               | Some p \<Rightarrow> if p \<noteq> [] \<and> p \<noteq> ex
                                           then [Failover base_symbol timeframe p ex] else [])"
    "calls s' = calls ?s1 @ new"
    "call_exchange ` set new = set pre \<union> {ex}"
    using Cons.IH [OF dist pre_fail ok] by blast
  obtain new1 where new1: "calls ?s1 = calls s @ new1" "call_exchange ` set new1 = {x}"
    using after_failure_calls [of cfg en s x base_symbol timeframe lmt] by blast
  have "calls s' = calls s @ (new1 @ new)"
    using ih(4) new1(1) by simp
  moreover have "call_exchange ` set (new1 @ new) = set (x # pre) \<union> {ex}"
    using ih(5) new1(2) by auto
  ultimately show ?case
    using ih(1-3) fail
    by (simp only: append_Cons try_exchanges_fail_step after_failure_frame) blast
qed

lemma try_exchanges_all_fail:
  assumes "distinct cands"
    and "\<forall>x\<in>set cands. isl (fst (attempt en s x base_symbol timeframe lmt))"
  shows "\<exists>s' new.
           try_exchanges cfg en base_symbol timeframe lmt cands tried last_err s
             = (Inl (RuntimeError (tried @ cands)
                  (if cands = [] then last_err
                   else Some (projl (fst (attempt en s (last cands) base_symbol timeframe lmt))))),
                s')
         \<and> pinned_exchange s' = pinned_exchange s
         \<and> sent s' = sent s
         \<and> calls s' = calls s @ new
         \<and> call_exchange ` set new = set cands"
  using assms
proof (induction cands arbitrary: s tried last_err)
  case Nil
  show ?case by simp
next
  case (Cons x cands)
  let ?s1 = "after_failure cfg en s x base_symbol timeframe lmt"
  let ?e = "projl (fst (attempt en s x base_symbol timeframe lmt))"
  have fail: "isl (fst (attempt en s x base_symbol timeframe lmt))"
    using Cons.prems(2) by simp
  have dist: "distinct cands" and nx: "x \<notin> set cands"
    using Cons.prems(1) by auto
  have rest_fail: "\<forall>y\<in>set cands. isl (fst (attempt en ?s1 y base_symbol timeframe lmt))"
  proof
    fix y assume y: "y \<in> set cands"
    with nx have "y \<noteq> x" by auto
    then show "isl (fst (attempt en ?s1 y base_symbol timeframe lmt))"
      using Cons.prems(2) y by (simp add: after_failure_attempt)
  qed
  obtain s' new where ih:
    "try_exchanges cfg en base_symbol timeframe lmt cands (tried @ [x]) (Some ?e) ?s1
       = (Inl (RuntimeError ((tried @ [x]) @ cands)
            (if cands = [] then Some ?e
             else Some (projl (fst (attempt en ?s1 (last cands) base_symbol timeframe lmt))))),
          s')"
    "pinned_exchange s' = pinned_exchange ?s1"
    "sent s' = sent ?s1"
    "calls s' = calls ?s1 @ new"
    "call_exchange ` set new = set cands"
    using Cons.IH [OF dist rest_fail] by blast
  obtain new1 where new1: "calls ?s1 = calls s @ new1" "call_exchange ` set new1 = {x}"
    using after_failure_calls [of cfg en s x base_symbol timeframe lmt] by blast
  have last_same: "cands \<noteq> [] \<Longrightarrow>
      fst (attempt en ?s1 (last cands) base_symbol timeframe lmt)
        = fst (attempt en s (last cands) base_symbol timeframe lmt)"
    using nx by (intro after_failure_attempt) (metis last_in_set)
  have "calls s' = calls s @ (new1 @ new)"
    using ih(4) new1(1) by simp
  moreover have "call_exchange ` set (new1 @ new) = set (x # cands)"
    using ih(5) new1(2) by auto
  ultimately show ?case
    using ih(1-3) fail last_same
    by (simp only: try_exchanges_fail_step after_failure_frame) auto
qed

text \<open>
  Pins are written by the success branch only, with a source of the candidate order: in
  every state reached from \<open>initial_state\<close> the pins are names of \<open>EXCHANGES\<close>, and so
  never the empty string.
\<close>

lemma ran_upd_subset: "ran (m(k \<mapsto> v)) \<subseteq> insert v (ran m)"
  by (auto simp: ran_def split: if_splits)

lemma try_exchanges_pins_known:
  assumes "set cands \<subseteq> set EXCHANGES" and "ran (pinned_exchange s) \<subseteq> set EXCHANGES"
  shows "ran (pinned_exchange
           (snd (try_exchanges cfg en base_symbol timeframe lmt cands tried last_err s)))
         \<subseteq> set EXCHANGES"
  using assms
proof (induction cands arbitrary: s tried last_err)
  case Nil
  then show ?case by simp
next
  case (Cons x cands)
  show ?case
  proof (cases "fst (attempt en s x base_symbol timeframe lmt)")
    case (Inl e)
    then have fail: "isl (fst (attempt en s x base_symbol timeframe lmt))" by simp
    have "ran (pinned_exchange (after_failure cfg en s x base_symbol timeframe lmt))
            \<subseteq> set EXCHANGES"
      using Cons.prems(2) by (simp add: after_failure_frame)
    moreover have "set cands \<subseteq> set EXCHANGES"
      using Cons.prems(1) by simp
    ultimately show ?thesis
      using Cons.IH by (simp only: try_exchanges_fail_step [OF fail])
  next
    case (Inr r)
    obtain market_symbol candles where r: "r = (market_symbol, candles)"
      by (cases r)
    have "ran ((pinned_exchange s)((base_symbol, timeframe) \<mapsto> x)) \<subseteq> set EXCHANGES"
      using ran_upd_subset [of "pinned_exchange s" "(base_symbol, timeframe)" x] Cons.prems
      by auto
    then show ?thesis
      using Inr r
      by (simp only: try_exchanges_success_step snd_conv on_success_pinned attempt_frame)
  qed
qed

lemma fetch_ohlcv_pinned_pins_known:
  assumes "ran (pinned_exchange s) \<subseteq> set EXCHANGES"
  shows "ran (pinned_exchange (snd (fetch_ohlcv_pinned cfg en s base_symbol timeframe lmt)))
         \<subseteq> set EXCHANGES"
proof -
  have "set (exchange_order_for s base_symbol timeframe (time_start en)) \<subseteq> set EXCHANGES"
    by (auto simp: set_exchange_order_for)
  then show ?thesis
    unfolding fetch_ohlcv_pinned_def using assms by (rule try_exchanges_pins_known)
qed

lemma known_pin_not_empty:
  assumes "ran (pinned_exchange s) \<subseteq> set EXCHANGES"
  shows "pinned_exchange s k \<noteq> Some []"
proof
  assume "pinned_exchange s k = Some []"
  then have "[] \<in> ran (pinned_exchange s)"
    by (rule ranI)
  with assms have "[] \<in> set EXCHANGES" by blast
  then show False by (simp add: EXCHANGES_def)
qed

lemma initial_state_pins_known: "ran (pinned_exchange initial_state) \<subseteq> set EXCHANGES"
  by (simp add: initial_state_def)

lemma run_tf_pins_known:
  assumes "ran (pinned_exchange s) \<subseteq> set EXCHANGES"
  shows "ran (pinned_exchange (run_tf cfg en s tf)) \<subseteq> set EXCHANGES"
proof -
  have cross: "pinned_exchange (cross_step cfg s1 a b c d e) = pinned_exchange s1" for s1 a b c d e
    by (simp add: cross_step_def Let_def)
  have "snd (get_rsi cfg en s (SYMBOL cfg) tf)
          = snd (fetch_ohlcv_pinned cfg en s (SYMBOL cfg) tf 100)"
    by (simp add: get_rsi_def Let_def split: prod.splits sum.splits option.splits)
  then have "pinned_exchange (run_tf cfg en s tf)
          = pinned_exchange (snd (fetch_ohlcv_pinned cfg en s (SYMBOL cfg) tf 100))"
    by (cases "get_rsi cfg en s (SYMBOL cfg) tf")
       (auto simp: run_tf_def cross split: sum.splits)
  then show ?thesis
    using fetch_ohlcv_pinned_pins_known [OF assms] by simp
qed

text \<open>
  C1. When some candidate succeeds, that is, when the candidate order is \<open>pre @ ex # post\<close>
  where the attempt (resolution, then candle fetch) fails on every source of \<open>pre\<close> and
  succeeds on \<open>ex\<close>, \<open>fetch_ohlcv_pinned\<close> returns \<open>ex\<close> with its resolved market symbol
  and candles, calls no provider of \<open>post\<close>, sets the pin of (base symbol, timeframe) to
  \<open>ex\<close>, and sends the failover message exactly when a pin existed before and named
  another source. Pins are source names, hence never the empty string.
\<close>

theorem fetch_ohlcv_pinned_first_success:
  assumes "exchange_order_for s base_symbol timeframe (time_start en) = pre @ ex # post"
    and "\<forall>x\<in>set pre. isl (fst (attempt en s x base_symbol timeframe lmt))"
    and "fst (attempt en s ex base_symbol timeframe lmt) = Inr (market_symbol, candles)"
    and "pinned_exchange s (base_symbol, timeframe) \<noteq> Some []"
  shows "fst (fetch_ohlcv_pinned cfg en s base_symbol timeframe lmt)
           = Inr (ex, market_symbol, candles)
       \<and> pinned_exchange (snd (fetch_ohlcv_pinned cfg en s base_symbol timeframe lmt))
           = (pinned_exchange s)((base_symbol, timeframe) \<mapsto> ex)
       \<and> sent (snd (fetch_ohlcv_pinned cfg en s base_symbol timeframe lmt))
           = sent s @ (case pinned_exchange s (base_symbol, timeframe) of
                         None \<Rightarrow> []
                       | Some p \<Rightarrow> if p \<noteq> ex then [Failover base_symbol timeframe p ex]
                                   else [])
       \<and> take (length (calls s))
            (calls (snd (fetch_ohlcv_pinned cfg en s base_symbol timeframe lmt))) = calls s
       \<and> call_exchange ` set (drop (length (calls s))
            (calls (snd (fetch_ohlcv_pinned cfg en s base_symbol timeframe lmt))))
           = set pre \<union> {ex}
       \<and> set post \<inter> (set pre \<union> {ex}) = {}"
proof -
  have dist: "distinct (pre @ ex # post)"
    using distinct_exchange_order_for [of s base_symbol timeframe "time_start en"] assms(1)
    by simp
  obtain s' new where r:
    "try_exchanges cfg en base_symbol timeframe lmt (pre @ ex # post) [] None s
       = (Inr (ex, market_symbol, candles), s')"
    "pinned_exchange s' = (pinned_exchange s)((base_symbol, timeframe) \<mapsto> ex)"
    "sent s' = sent s @ (case pinned_exchange s (base_symbol, timeframe) of
                           None \<Rightarrow> []
                         | Some p \<Rightarrow> if p \<noteq> [] \<and> p \<noteq> ex
                                     then [Failover base_symbol timeframe p ex] else [])"
    "calls s' = calls s @ new"
    "call_exchange ` set new = set pre \<union> {ex}"
    using try_exchanges_first_success
      [where cfg = cfg and tried = "[]" and last_err = None, OF dist assms(2) assms(3)]
    by blast
  have run: "fetch_ohlcv_pinned cfg en s base_symbol timeframe lmt
               = (Inr (ex, market_symbol, candles), s')"
    using r(1) assms(1) by (simp add: fetch_ohlcv_pinned_def)
  have msgs: "sent s' = sent s @ (case pinned_exchange s (base_symbol, timeframe) of
                         None \<Rightarrow> []
                       | Some p \<Rightarrow> if p \<noteq> ex then [Failover base_symbol timeframe p ex]
                                   else [])"
    using r(3) assms(4) by (auto split: option.splits)
  have "set post \<inter> (set pre \<union> {ex}) = {}"
    using dist by auto
  with run r(2) msgs r(4) r(5) show ?thesis
    by simp
qed

lemma first_cycle_order:
  "exchange_order_for initial_state ''BTC/USDT'' ''5m'' (time_start failover_env)
     = [''bybit''] @ ''kucoin'' # [''okx'']"
  by (simp add: example_defs run_defs)

lemma first_cycle_bybit:
  "fst (attempt failover_env initial_state ''bybit'' ''BTC/USDT'' ''5m'' 100) = Inl timeout_error"
  by (simp add: example_defs run_defs)

lemma first_cycle_kucoin:
  "fst (attempt failover_env initial_state ''kucoin'' ''BTC/USDT'' ''5m'' 100)
     = Inr (''BTC/USDT:USDT'', flat_candles 15)"
  by (simp add: example_defs run_defs)

lemma second_cycle_order:
  "exchange_order_for pinned_kucoin_state ''BTC/USDT'' ''5m'' (time_start second_env)
     = [''kucoin''] @ ''okx'' # []"
  by (simp add: example_defs run_defs)

lemma second_cycle_kucoin:
  "fst (attempt second_env pinned_kucoin_state ''kucoin'' ''BTC/USDT'' ''5m'' 100)
     = Inl (Exc ExchangeNotAvailable ''kucoin is down'')"
  by (simp add: example_defs run_defs)

lemma second_cycle_okx:
  "fst (attempt second_env pinned_kucoin_state ''okx'' ''BTC/USDT'' ''5m'' 100)
     = Inr (''BTC/USDT'', flat_candles 15)"
  by (simp add: example_defs run_defs)

theorem fetch_ohlcv_pinned_first_success_witness:
  "fst (fetch_ohlcv_pinned default_config failover_env initial_state ''BTC/USDT'' ''5m'' 100)
     = Inr (''kucoin'', ''BTC/USDT:USDT'', flat_candles 15)
   \<and> pinned_exchange
        (snd (fetch_ohlcv_pinned default_config failover_env initial_state ''BTC/USDT'' ''5m'' 100))
        (''BTC/USDT'', ''5m'') = Some ''kucoin''
   \<and> sent (snd (fetch_ohlcv_pinned default_config failover_env initial_state ''BTC/USDT'' ''5m'' 100))
     = []
   \<and> fst (fetch_ohlcv_pinned default_config second_env pinned_kucoin_state ''BTC/USDT'' ''5m'' 100)
     = Inr (''okx'', ''BTC/USDT'', flat_candles 15)
   \<and> pinned_exchange
        (snd (fetch_ohlcv_pinned default_config second_env pinned_kucoin_state ''BTC/USDT'' ''5m'' 100))
        (''BTC/USDT'', ''5m'') = Some ''okx''
   \<and> sent (snd (fetch_ohlcv_pinned default_config second_env pinned_kucoin_state ''BTC/USDT'' ''5m'' 100))
     = [Failover ''BTC/USDT'' ''5m'' ''kucoin'' ''okx'']"
proof -
  have f1: "\<forall>x\<in>set [''bybit'']. isl (fst (attempt failover_env initial_state x ''BTC/USDT'' ''5m'' 100))"
    by (simp add: first_cycle_bybit)
  have p1: "pinned_exchange initial_state (''BTC/USDT'', ''5m'') \<noteq> Some []"
    by (simp add: initial_state_def)
  have f2: "\<forall>x\<in>set [''kucoin'']. isl (fst (attempt second_env pinned_kucoin_state x ''BTC/USDT'' ''5m'' 100))"
    by (simp add: second_cycle_kucoin)
  have p2: "pinned_exchange pinned_kucoin_state (''BTC/USDT'', ''5m'') \<noteq> Some []"
    by (simp add: pinned_kucoin_state_def)
  show ?thesis
    using fetch_ohlcv_pinned_first_success
        [where cfg = default_config, OF first_cycle_order f1 first_cycle_kucoin p1]
      fetch_ohlcv_pinned_first_success
        [where cfg = default_config, OF second_cycle_order f2 second_cycle_okx p2]
    by (simp add: initial_state_def pinned_kucoin_state_def)
qed

text \<open>
  C4. When no candidate succeeds (the attempt fails on every source of the candidate
  order, which may be empty), \<open>fetch_ohlcv_pinned\<close> raises its error with the sources
  tried, which are all the candidates in their order, and the error of the last attempt
  (none for an empty order); every candidate was called, and no pin is changed.
\<close>

theorem fetch_ohlcv_pinned_exhausted:
  assumes "\<forall>x\<in>set (exchange_order_for s base_symbol timeframe (time_start en)).
             isl (fst (attempt en s x base_symbol timeframe lmt))"
  shows "fst (fetch_ohlcv_pinned cfg en s base_symbol timeframe lmt)
           = Inl (RuntimeError (exchange_order_for s base_symbol timeframe (time_start en))
               (if exchange_order_for s base_symbol timeframe (time_start en) = [] then None
                else Some (projl (fst (attempt en s
                       (last (exchange_order_for s base_symbol timeframe (time_start en)))
                       base_symbol timeframe lmt)))))
       \<and> pinned_exchange (snd (fetch_ohlcv_pinned cfg en s base_symbol timeframe lmt))
           = pinned_exchange s
       \<and> take (length (calls s))
            (calls (snd (fetch_ohlcv_pinned cfg en s base_symbol timeframe lmt))) = calls s
       \<and> call_exchange ` set (drop (length (calls s))
            (calls (snd (fetch_ohlcv_pinned cfg en s base_symbol timeframe lmt))))
           = set (exchange_order_for s base_symbol timeframe (time_start en))"
proof -
  let ?order = "exchange_order_for s base_symbol timeframe (time_start en)"
  have dist: "distinct ?order"
    by (rule distinct_exchange_order_for)
  obtain s' new where r:
    "try_exchanges cfg en base_symbol timeframe lmt ?order [] None s
       = (Inl (RuntimeError ([] @ ?order)
            (if ?order = [] then None
             else Some (projl (fst (attempt en s (last ?order) base_symbol timeframe lmt))))),
          s')"
    "pinned_exchange s' = pinned_exchange s"
    "calls s' = calls s @ new"
    "call_exchange ` set new = set ?order"
    using try_exchanges_all_fail
      [where cfg = cfg and tried = "[]" and last_err = None, OF dist assms]
    by blast
  then show ?thesis
    by (simp add: fetch_ohlcv_pinned_def)
qed

lemma down_order:
  "exchange_order_for initial_state ''BTC/USDT'' ''5m'' (time_start down_env)
     = [''bybit'', ''kucoin'', ''okx'']"
  by (simp add: down_env_def initial_state_def run_defs)

lemma down_attempt:
  "fst (attempt down_env initial_state x ''BTC/USDT'' ''5m'' 100)
     = Inl (Exc ExchangeNotAvailable (x @ '' is down''))"
  by (simp add: down_env_def initial_state_def run_defs)

lemma cooling_order:
  "exchange_order_for cooling_state ''BTC/USDT'' ''5m'' (time_start failover_env) = []"
  by (simp add: cooling_state_def failover_env_def initial_state_def run_defs)

lemma example_state_fields:
  "pinned_exchange initial_state = Map.empty" "calls initial_state = []"
  "sent initial_state = []"
  "pinned_exchange cooling_state = Map.empty" "calls cooling_state = []"
  "cooldown_until initial_state ''bybit'' = Some 0"
  by (simp_all add: initial_state_def cooling_state_def EXCHANGES_def)

theorem fetch_ohlcv_pinned_exhausted_witness:
  "fst (fetch_ohlcv_pinned default_config down_env initial_state ''BTC/USDT'' ''5m'' 100)
     = Inl (RuntimeError [''bybit'', ''kucoin'', ''okx'']
              (Some (Exc ExchangeNotAvailable ''okx is down'')))
   \<and> pinned_exchange
        (snd (fetch_ohlcv_pinned default_config down_env initial_state ''BTC/USDT'' ''5m'' 100))
     = Map.empty
   \<and> fst (fetch_ohlcv_pinned default_config failover_env cooling_state ''BTC/USDT'' ''5m'' 100)
     = Inl (RuntimeError [] None)
   \<and> pinned_exchange
        (snd (fetch_ohlcv_pinned default_config failover_env cooling_state ''BTC/USDT'' ''5m'' 100))
     = Map.empty"
proof -
  have a: "\<forall>x\<in>set (exchange_order_for initial_state ''BTC/USDT'' ''5m'' (time_start down_env)).
             isl (fst (attempt down_env initial_state x ''BTC/USDT'' ''5m'' 100))"
    by (simp add: down_attempt)
  have b: "\<forall>x\<in>set (exchange_order_for cooling_state ''BTC/USDT'' ''5m'' (time_start failover_env)).
             isl (fst (attempt failover_env cooling_state x ''BTC/USDT'' ''5m'' 100))"
    by (simp add: cooling_order)
  show ?thesis
    using fetch_ohlcv_pinned_exhausted [OF a, of default_config]
      fetch_ohlcv_pinned_exhausted [OF b, of default_config]
    by (simp add: down_order cooling_order down_attempt example_state_fields)
qed

lemma attempt_cache_evicted:
  "(perp_symbol_cache (snd (attempt en s ex base_symbol timeframe lmt)))((ex, base_symbol) := None)
     = (perp_symbol_cache s)((ex, base_symbol) := None)"
proof
  fix k
  show "((perp_symbol_cache (snd (attempt en s ex base_symbol timeframe lmt)))
           ((ex, base_symbol) := None)) k
        = ((perp_symbol_cache s)((ex, base_symbol) := None)) k"
    by (cases "k = (ex, base_symbol)") (simp_all add: attempt_cache_other)
qed

text \<open>
  C3 (amended). When an attempt fails with an error that is not a BadSymbol and whose
  lowercased text contains "symbol" or "market", the cached market symbol of
  (source, base symbol) is evicted and the loop goes on with the next candidate; the source
  is put in cooldown exactly when the error is also recoverable (a network class, or a text
  with "restricted", "forbidden" or "403"), and not otherwise.
\<close>

theorem stale_mapping_error_handling:
  assumes "fst (attempt en s ex base_symbol timeframe lmt) = Inl e"
    and "exc_class e \<noteq> BadSymbol"
    and "mentions_market e"
  shows "try_exchanges cfg en base_symbol timeframe lmt (ex # rest) tried last_err s
           = try_exchanges cfg en base_symbol timeframe lmt rest (tried @ [ex]) (Some e)
               (after_failure cfg en s ex base_symbol timeframe lmt)
       \<and> perp_symbol_cache (after_failure cfg en s ex base_symbol timeframe lmt)
           = (perp_symbol_cache s)((ex, base_symbol) := None)
       \<and> cooldown_until (after_failure cfg en s ex base_symbol timeframe lmt)
           = (if is_recoverable e
              then (cooldown_until s)
                     (ex \<mapsto> time_failure en ex + real_of_int (COOLDOWN_SECONDS cfg))
              else cooldown_until s)"
proof -
  have fail: "isl (fst (attempt en s ex base_symbol timeframe lmt))"
    using assms(1) by simp
  have step: "try_exchanges cfg en base_symbol timeframe lmt (ex # rest) tried last_err s
           = try_exchanges cfg en base_symbol timeframe lmt rest (tried @ [ex]) (Some e)
               (after_failure cfg en s ex base_symbol timeframe lmt)"
    using try_exchanges_fail_step [OF fail, of cfg rest tried last_err] assms(1) by simp
  have cache: "perp_symbol_cache (after_failure cfg en s ex base_symbol timeframe lmt)
           = (perp_symbol_cache s)((ex, base_symbol) := None)"
    using assms by (simp add: after_failure_def on_error_def Let_def attempt_cache_evicted)
  have cool: "cooldown_until (after_failure cfg en s ex base_symbol timeframe lmt)
           = (if is_recoverable e
              then (cooldown_until s)
                     (ex \<mapsto> time_failure en ex + real_of_int (COOLDOWN_SECONDS cfg))
              else cooldown_until s)"
    using assms by (simp add: after_failure_def on_error_def Let_def attempt_frame)
  from step cache cool show ?thesis by simp
qed

lemma timeout_error_facts:
  "exc_class timeout_error \<noteq> BadSymbol" "mentions_market timeout_error"
  "is_recoverable timeout_error"
  by (simp_all add: timeout_error_def mentions_market_def is_recoverable_def lower_def lower_char_def)


lemma example_env_fields:
  "time_failure failover_env x = 1001" "COOLDOWN_SECONDS default_config = 120"
  "perp_symbol_cache cached_bybit_state (''bybit'', ''BTC/USDT'') = Some ''BTC/USDT:USDT''"
  by (simp_all add: failover_env_def default_config_def cached_bybit_state_def)

lemma first_cycle_bybit_state:
  "cooldown_until (snd (attempt failover_env initial_state ''bybit'' ''BTC/USDT'' ''5m'' 100)) ''bybit''
     = Some 0"
  by (simp add: attempt_frame initial_state_def EXCHANGES_def)

theorem stale_mapping_error_handling_witness:
  "perp_symbol_cache
     (after_failure default_config failover_env initial_state ''bybit'' ''BTC/USDT'' ''5m'' 100)
     (''bybit'', ''BTC/USDT'') = None
   \<and> cooldown_until
     (after_failure default_config failover_env initial_state ''bybit'' ''BTC/USDT'' ''5m'' 100)
     ''bybit'' = Some 1121"
  using stale_mapping_error_handling
    [where cfg = default_config, OF first_cycle_bybit timeout_error_facts(1) timeout_error_facts(2)]
    timeout_error_facts(3)
  by (simp add: example_env_fields example_state_fields)

lemma on_success_cooldown:
  "cooldown_until (on_success s ex base_symbol timeframe) = cooldown_until s"
  "perp_symbol_cache (on_success s ex base_symbol timeframe) = perp_symbol_cache s"
  by (simp_all add: on_success_def Let_def split: option.splits)

lemma first_cycle_run:
  "fetch_ohlcv_pinned default_config failover_env initial_state ''BTC/USDT'' ''5m'' 100
     = (Inr (''kucoin'', ''BTC/USDT:USDT'', flat_candles 15),
        on_success
          (snd (attempt failover_env
             (after_failure default_config failover_env initial_state ''bybit'' ''BTC/USDT'' ''5m'' 100)
             ''kucoin'' ''BTC/USDT'' ''5m'' 100))
          ''kucoin'' ''BTC/USDT'' ''5m'')"
proof -
  have fail: "isl (fst (attempt failover_env initial_state ''bybit'' ''BTC/USDT'' ''5m'' 100))"
    by (simp add: first_cycle_bybit)
  have ne: "''kucoin'' \<noteq> ''bybit''" by simp
  have ok: "fst (attempt failover_env
             (after_failure default_config failover_env initial_state ''bybit'' ''BTC/USDT'' ''5m'' 100)
             ''kucoin'' ''BTC/USDT'' ''5m'' 100) = Inr (''BTC/USDT:USDT'', flat_candles 15)"
    using after_failure_attempt [OF ne] first_cycle_kucoin by simp
  show ?thesis
    unfolding fetch_ohlcv_pinned_def first_cycle_order append_Cons append_Nil
    by (simp only: try_exchanges_fail_step [OF fail] try_exchanges_success_step [OF ok])
qed

lemma first_cycle_cooldown:
  "cooldown_until
     (snd (fetch_ohlcv_pinned default_config failover_env initial_state ''BTC/USDT'' ''5m'' 100))
     ''bybit'' = Some 1121"
  using timeout_error_facts(3)
  by (simp add: first_cycle_run on_success_cooldown attempt_frame after_failure_def on_error_def
      first_cycle_bybit example_state_fields Let_def example_env_fields)

lemma stale_attempt:
  "attempt stale_env cached_bybit_state ''bybit'' ''BTC/USDT'' ''5m'' 100
     = (Inl bad_symbol_error,
        cached_bybit_state \<lparr> calls := [FetchOhlcv ''bybit'' ''BTC/USDT:USDT'' ''5m'' 100] \<rparr>)"
  by (simp add: stale_env_def cached_bybit_state_def initial_state_def run_defs)

lemma bad_symbol_error_facts:
  "exc_class bad_symbol_error = BadSymbol" "mentions_market bad_symbol_error"
  "\<not> is_recoverable bad_symbol_error"
  by (simp_all add: bad_symbol_error_def mentions_market_def is_recoverable_def lower_def
      lower_char_def)

text \<open>
  The claim as it was stated fails twice. A timeout whose text holds the word "market" (the
  request's address) is recoverable: bybit is evicted and put in cooldown. A BadSymbol
  whose text holds "symbol" leaves the cached symbol in place.
\<close>

theorem stale_mapping_counterexample:
  "fst (attempt failover_env initial_state ''bybit'' ''BTC/USDT'' ''5m'' 100) = Inl timeout_error
   \<and> mentions_market timeout_error
   \<and> cooldown_until initial_state ''bybit'' = Some 0
   \<and> cooldown_until
        (snd (fetch_ohlcv_pinned default_config failover_env initial_state ''BTC/USDT'' ''5m'' 100))
        ''bybit'' = Some 1121
   \<and> fst (attempt stale_env cached_bybit_state ''bybit'' ''BTC/USDT'' ''5m'' 100)
        = Inl bad_symbol_error
   \<and> mentions_market bad_symbol_error
   \<and> perp_symbol_cache
        (after_failure default_config stale_env cached_bybit_state ''bybit'' ''BTC/USDT'' ''5m'' 100)
        (''bybit'', ''BTC/USDT'') = Some ''BTC/USDT:USDT''"
proof -
  have "cooldown_until initial_state ''bybit'' = Some 0"
    by (simp add: initial_state_def EXCHANGES_def)
  moreover have "perp_symbol_cache
        (after_failure default_config stale_env cached_bybit_state ''bybit'' ''BTC/USDT'' ''5m'' 100)
        (''bybit'', ''BTC/USDT'') = Some ''BTC/USDT:USDT''"
    using bad_symbol_error_facts
    by (simp add: after_failure_def stale_attempt on_error_def Let_def example_env_fields)
  ultimately show ?thesis
    using first_cycle_bybit timeout_error_facts(2) first_cycle_cooldown bad_symbol_error_facts(2)
    by (simp add: stale_attempt)
qed

section \<open>The indicator evaluator\<close>

lemma get_rsi_after_fetch:
  assumes "fetch_ohlcv_pinned cfg en s base_symbol tf 100 = (Inr (ex, market_symbol, candles), s1)"
    and "length (rsi_series en (map c_c candles)) = length candles"
  shows "get_rsi cfg en s base_symbol tf =
           (if length candles < 2 then (Inl IlocIndexError, s1)
            else (Inr (ex, market_symbol,
                       rsi_series en (map c_c candles) ! (length candles - 2),
                       rsi_series en (map c_c candles) ! (length candles - 1)), s1))"
  using assms by (auto simp: get_rsi_def iloc_neg_def Let_def)

lemma length_ewm_from: "length (ewm_from a y xs) = length xs"
  by (induction xs arbitrary: y) auto

lemma length_ewm_mean: "length (ewm_mean a xs) = length xs"
  by (cases xs) (auto simp: length_ewm_from)

lemma length_wilder_rsi: "length (wilder_rsi window closes) = length closes"
  by (cases closes) (auto simp: wilder_rsi_def Let_def length_ewm_from)

lemma flat_rsi:
  "wilder_rsi 14 (map c_c (flat_candles 15))
     = [NaN, NaN, NaN, NaN, NaN, NaN, NaN, NaN, NaN, NaN, NaN, NaN, NaN, Fin 100, Fin 100]"
  by (simp add: flat_candles_def wilder_rsi_def upt_rec [of _ "numeral _"] Let_def)


lemma flat_rsi_short: "wilder_rsi 14 (map c_c (flat_candles 1)) = [NaN]"
  by (simp add: flat_candles_def wilder_rsi_def Let_def)

lemma example_rsi_fields:
  "rsi_series failover_env = wilder_rsi 14" "rsi_series short_env = wilder_rsi 14"
  by (simp_all add: failover_env_def short_env_def)

lemma length_flat_candles: "length (flat_candles n) = n"
  by (simp add: flat_candles_def)

lemma short_run:
  "fetch_ohlcv_pinned default_config short_env initial_state ''BTC/USDT'' ''5m'' 100
     = (Inr (''bybit'', ''BTC/USDT:USDT'', flat_candles 1),
        on_success (snd (attempt short_env initial_state ''bybit'' ''BTC/USDT'' ''5m'' 100))
          ''bybit'' ''BTC/USDT'' ''5m'')"
proof -
  have order: "exchange_order_for initial_state ''BTC/USDT'' ''5m'' (time_start short_env)
                 = [''bybit'', ''kucoin'', ''okx'']"
    by (simp add: short_env_def initial_state_def run_defs)
  have ok: "fst (attempt short_env initial_state ''bybit'' ''BTC/USDT'' ''5m'' 100)
              = Inr (''BTC/USDT:USDT'', flat_candles 1)"
    by (simp add: short_env_def initial_state_def swap_catalog_def btc_spot_def
        btc_swap_coin_def btc_swap_linear_def run_defs)
  show ?thesis
    unfolding fetch_ohlcv_pinned_def order
    by (simp only: try_exchanges_success_step [OF ok])
qed

text \<open>
  C2 (amended). \<open>get_rsi\<close> makes no test on the number of candles. After a successful
  fetch it fails, with the IndexError of \<open>iloc[-2]\<close>, exactly when fewer than 2 candles
  came back; from 2 candles on, so also with fewer than 16, it returns the last two entries
  of the indicator series, whatever they are (NaN where the window is not filled).
\<close>

theorem get_rsi_no_length_check:
  assumes "fetch_ohlcv_pinned cfg en s base_symbol tf 100 = (Inr (ex, market_symbol, candles), s1)"
    and "length (rsi_series en (map c_c candles)) = length candles"
  shows "get_rsi cfg en s base_symbol tf =
           (if length candles < 2 then (Inl IlocIndexError, s1)
            else (Inr (ex, market_symbol,
                       rsi_series en (map c_c candles) ! (length candles - 2),
                       rsi_series en (map c_c candles) ! (length candles - 1)), s1))"
  using assms by (rule get_rsi_after_fetch)

theorem get_rsi_no_length_check_witness:
  "fst (get_rsi default_config short_env initial_state ''BTC/USDT'' ''5m'') = Inl IlocIndexError
   \<and> fst (get_rsi default_config failover_env initial_state ''BTC/USDT'' ''5m'')
     = Inr (''kucoin'', ''BTC/USDT:USDT'', Fin 100, Fin 100)"
proof -
  have a: "length (rsi_series short_env (map c_c (flat_candles 1))) = length (flat_candles 1)"
    by (simp add: example_rsi_fields length_wilder_rsi)
  have b: "length (rsi_series failover_env (map c_c (flat_candles 15))) = length (flat_candles 15)"
    by (simp add: example_rsi_fields length_wilder_rsi)
  show ?thesis
    using get_rsi_no_length_check [OF short_run a] get_rsi_no_length_check [OF first_cycle_run b]
    by (simp add: example_rsi_fields flat_rsi length_flat_candles)
qed

text \<open>
  The claim as it was stated fails: with 15 candles, fewer than 16, \<open>get_rsi\<close> raises
  nothing and returns the two last values of the series.
\<close>

theorem insufficient_data_counterexample:
  "length (flat_candles 15) = 15
   \<and> fst (fetch_ohlcv_pinned default_config failover_env initial_state ''BTC/USDT'' ''5m'' 100)
     = Inr (''kucoin'', ''BTC/USDT:USDT'', flat_candles 15)
   \<and> fst (get_rsi default_config failover_env initial_state ''BTC/USDT'' ''5m'')
     = Inr (''kucoin'', ''BTC/USDT:USDT'', Fin 100, Fin 100)"
proof -
  have b: "length (rsi_series failover_env (map c_c (flat_candles 15))) = length (flat_candles 15)"
    by (simp add: example_rsi_fields length_wilder_rsi)
  show ?thesis
    using get_rsi_after_fetch [OF first_cycle_run b]
    by (simp add: first_cycle_run example_rsi_fields flat_rsi length_flat_candles)
qed

end
